theory Spec2Isabelle
  imports Main "HOL-Library.Char_ord" "HOL-Library.List_Lexorder" "HOL-Library.Sublist"
begin

section \<open>Static module discovery (my/core/discovery_pure.py)\<close>

text \<open>
  The module discovers HPI modules without importing them: it walks the source tree,
  derives a dotted name from every file path, parses the file with Python's \<open>ast\<close>
  module and reads the requirements declaration and the opt-out marker from the
  top-level statements of the tree.

  The embedding keeps to the source. What the source gets from its environment is an
  input of the model: the files found below the root directory (with the result of
  reading and parsing each one) and the name of the root directory.
\<close>

subsection \<open>Module constants\<close>

definition REQUIRES :: string where
  "REQUIRES = ''REQUIRES''"

definition NOT_HPI_MODULE_VAR :: string where
  "NOT_HPI_MODULE_VAR = ''__NOT_HPI_MODULE__''"

subsection \<open>Syntax trees\<close>

text \<open>
  The part of Python's \<open>ast\<close> node classes that the source consults. The value of an
  \<open>ast.Constant\<close> node is any Python constant; \<open>ast.Str\<close> is the node class of string
  literals before Python 3.8 (from 3.8 on the parser produces \<open>ast.Constant\<close> for every
  literal, numbers included).
\<close>

datatype pyconst =
    CStr string
  | CBytes string
  | CInt int
  | CBool bool
  | CNone
  | CEllipsis

datatype expr =
    Name string
  | Constant pyconst
  | Str string
  | ListE "expr list"
  | TupleE "expr list"
  | SetE "expr list"
  | Attribute expr string
  | Subscript expr expr
  | Call expr "expr list"
  | OtherExpr

datatype import_alias = Alias (alias_name: string) (asname: "string option")

datatype stmt =
    Assign "expr list" expr
  | AugAssign expr expr
  | AnnAssign expr expr "expr option"
  | FunctionDef string "stmt list"
  | AsyncFunctionDef string "stmt list"
  | ClassDef string "stmt list"
  | Import "import_alias list"
  | ImportFrom "string option" "import_alias list"
  | Global "string list"
  | Nonlocal "string list"
  | Expr expr
  | If expr "stmt list" "stmt list"
  | OtherStmt

text \<open>A module tree is the list of its top-level statements (\<open>ast.Module.body\<close>).\<close>

type_synonym pymodule = "stmt list"

datatype error =
    RuntimeError string
  | ValueError string
  | ParseFailure string

subsection \<open>Attribute probes\<close>

text \<open>
  The source reads node attributes with \<open>getattr(node, attr, default)\<close>. Each probe
  is a function that answers for the node classes that have the attribute and gives
  the default for the others.
\<close>

text \<open>\<open>getattr(t, 'id', None)\<close>: only \<open>ast.Name\<close> has an \<open>id\<close>.\<close>

fun expr_id :: "expr \<Rightarrow> string option" where
  "expr_id (Name s) = Some s"
| "expr_id _ = None"

text \<open>\<open>getattr(vals, 'elts', None)\<close>: the list, tuple and set displays have \<open>elts\<close>.\<close>

fun expr_elts :: "expr \<Rightarrow> expr list option" where
  "expr_elts (ListE es) = Some es"
| "expr_elts (TupleE es) = Some es"
| "expr_elts (SetE es) = Some es"
| "expr_elts _ = None"

text \<open>\<open>getattr(node, 'name', None)\<close> on a statement: the three definition statements.\<close>

fun stmt_name :: "stmt \<Rightarrow> string option" where
  "stmt_name (FunctionDef n _) = Some n"
| "stmt_name (AsyncFunctionDef n _) = Some n"
| "stmt_name (ClassDef n _) = Some n"
| "stmt_name _ = None"

text \<open>
  \<open>getattr(node, 'names', [])\<close>: the import statements hold \<open>ast.alias\<close> nodes, the
  \<open>global\<close> and \<open>nonlocal\<close> statements hold plain strings.
\<close>

datatype names_item = AliasItem import_alias | StrItem string

fun stmt_names :: "stmt \<Rightarrow> names_item list" where
  "stmt_names (Import ns) = map AliasItem ns"
| "stmt_names (ImportFrom _ ns) = map AliasItem ns"
| "stmt_names (Global ns) = map StrItem ns"
| "stmt_names (Nonlocal ns) = map StrItem ns"
| "stmt_names _ = []"

text \<open>\<open>getattr(n, 'name', None)\<close> on an item of \<open>names\<close>: a string has no \<open>name\<close>.\<close>

fun item_name :: "names_item \<Rightarrow> string option" where
  "item_name (AliasItem a) = Some (alias_name a)"
| "item_name (StrItem _) = None"

subsection \<open>Requirements extraction\<close>

text \<open>
  The inner loop of \<open>_extract_requirements\<close> over the elements of the display:
  \<open>deps\<close> is the accumulator, an element that is neither \<open>ast.Constant\<close> nor
  \<open>ast.Str\<close> raises.
\<close>

definition requires_message :: string where
  "requires_message = ''Expecting string contants only in '' @ REQUIRES @ '' declaration''"

fun collect_deps :: "pyconst list \<Rightarrow> expr list \<Rightarrow> error + pyconst list" where
  "collect_deps deps [] = Inr deps"
| "collect_deps deps (c # cs) =
     (case c of
        Constant v \<Rightarrow> collect_deps (deps @ [v]) cs
      | Str s \<Rightarrow> collect_deps (deps @ [CStr s]) cs
      | _ \<Rightarrow> Inl (RuntimeError requires_message))"

text \<open>
  \<open>_extract_requirements\<close>: the first statement that is an \<open>ast.Assign\<close> with exactly
  one target whose \<open>id\<close> is \<open>REQUIRES\<close> and whose value has \<open>elts\<close> decides; every other
  statement is passed over. \<open>Inr None\<close> is the Python \<open>None\<close> (no declaration),
  \<open>Inr (Some deps)\<close> the tuple, \<open>Inl e\<close> the raised exception.
\<close>

fun extract_requirements :: "pymodule \<Rightarrow> error + pyconst list option" where
  "extract_requirements [] = Inr None"
| "extract_requirements (x # xs) =
     (case x of
        Assign tg vals \<Rightarrow>
          if length tg \<noteq> 1 then extract_requirements xs
          else if expr_id (hd tg) \<noteq> Some REQUIRES then extract_requirements xs
          else (case expr_elts vals of
                  None \<Rightarrow> extract_requirements xs
                | Some elts \<Rightarrow>
                    (case collect_deps [] elts of
                       Inl e \<Rightarrow> Inl e
                     | Inr deps \<Rightarrow> Inr (Some deps)))
      | _ \<Rightarrow> extract_requirements xs)"

subsection \<open>Opt-out marker and docstring\<close>

text \<open>The \<open>any(...)\<close> expression of \<open>all_modules\<close> over the top-level statements.\<close>

definition is_not_module :: "pymodule \<Rightarrow> bool" where
  "is_not_module a =
     list_ex (\<lambda>node. stmt_name node = Some NOT_HPI_MODULE_VAR
                \<or> list_ex (\<lambda>n. item_name n = Some NOT_HPI_MODULE_VAR) (stmt_names node)) a"

text \<open>
  \<open>ast.get_docstring(a, clean=False)\<close>: the string of a first statement that is an
  expression statement holding a string literal, unprocessed.
\<close>

fun get_docstring :: "pymodule \<Rightarrow> string option" where
  "get_docstring (Expr (Constant (CStr s)) # _) = Some s"
| "get_docstring (Expr (Str s) # _) = Some s"
| "get_docstring _ = None"

subsection \<open>Regular expressions\<close>

text \<open>
  \<open>ignored\<close> matches the name against a regular expression. The expression is kept
  as a syntax tree, with the constructs the pattern uses; \<open>RAny\<close> is the dot, which
  matches every character except the newline. Matching is by derivatives.
\<close>

datatype rexp =
    RNone
  | REmpty
  | RChar char
  | RAny
  | RSeq rexp rexp
  | ROr rexp rexp
  | RStar rexp

definition newline :: char where
  "newline = CHR 0x0A"

fun nullable :: "rexp \<Rightarrow> bool" where
  "nullable RNone = False"
| "nullable REmpty = True"
| "nullable (RChar _) = False"
| "nullable RAny = False"
| "nullable (RSeq r s) = (nullable r \<and> nullable s)"
| "nullable (ROr r s) = (nullable r \<or> nullable s)"
| "nullable (RStar _) = True"

fun deriv :: "char \<Rightarrow> rexp \<Rightarrow> rexp" where
  "deriv c RNone = RNone"
| "deriv c REmpty = RNone"
| "deriv c (RChar d) = (if c = d then REmpty else RNone)"
| "deriv c RAny = (if c = newline then RNone else REmpty)"
| "deriv c (RSeq r s) =
     (if nullable r then ROr (RSeq (deriv c r) s) (deriv c s) else RSeq (deriv c r) s)"
| "deriv c (ROr r s) = ROr (deriv c r) (deriv c s)"
| "deriv c (RStar r) = RSeq (deriv c r) (RStar r)"

text \<open>The whole string is in the language of the expression.\<close>

fun accepts :: "rexp \<Rightarrow> string \<Rightarrow> bool" where
  "accepts r [] = nullable r"
| "accepts r (c # cs) = accepts (deriv c r) cs"

text \<open>
  \<open>re.match('^' + r + '$', s)\<close>: \<open>re.match\<close> starts at the beginning of the string,
  and \<open>$\<close> holds at the end of the string and also just before a newline that is
  the last character of the string.
\<close>

definition re_match_anchored :: "rexp \<Rightarrow> string \<Rightarrow> bool" where
  "re_match_anchored r s =
     (accepts r s \<or> (s \<noteq> [] \<and> last s = newline \<and> accepts r (butlast s)))"

text \<open>A run of literal characters, and the alternation that \<open>'|'.join\<close> builds.\<close>

fun literal :: "string \<Rightarrow> rexp" where
  "literal [] = REmpty"
| "literal (c # cs) = RSeq (RChar c) (literal cs)"

fun alternation :: "rexp list \<Rightarrow> rexp" where
  "alternation [] = REmpty"
| "alternation [r] = r"
| "alternation (r # rs) = ROr r (alternation rs)"

subsection \<open>The exclusion filter\<close>

text \<open>
  \<open>excluded\<close> holds the two patterns \<open>core.*\<close> and \<open>config.*\<close>, and the name is
  matched against \<open>^my.(core.*|config.*)$\<close>. The dots of the pattern are not escaped:
  each one is the regular expression's dot.
\<close>

definition excluded :: "rexp list" where
  "excluded = [RSeq (literal ''core'') (RStar RAny), RSeq (literal ''config'') (RStar RAny)]"

definition ignored :: "string \<Rightarrow> bool" where
  "ignored m =
     (let exs = alternation excluded
      in re_match_anchored (RSeq (literal ''my'') (RSeq RAny exs)) m)"

subsection \<open>Paths\<close>

text \<open>
  A relative \<open>pathlib\<close> path is the list of its components; the empty list is the path
  \<open>.\<close>, whose \<open>name\<close> is the empty string.
\<close>

type_synonym path = "string list"

definition path_name :: "path \<Rightarrow> string" where
  "path_name p = (if p = [] then [] else last p)"

definition path_parent :: "path \<Rightarrow> path" where
  "path_parent p = butlast p"

fun join :: "string \<Rightarrow> string list \<Rightarrow> string" where
  "join sep [] = []"
| "join sep [x] = x"
| "join sep (x # xs) = x @ sep @ join sep xs"

definition path_str :: "path \<Rightarrow> string" where
  "path_str p = (if p = [] then ''.'' else join ''/'' p)"

text \<open>\<open>str.rfind\<close> of a character: the highest index where it occurs, or \<open>-1\<close>.\<close>

definition rfind :: "char \<Rightarrow> string \<Rightarrow> int" where
  "rfind c s =
     (if c \<in> set s
      then int (length s) - 1 - int (length (takeWhile (\<lambda>x. x \<noteq> c) (rev s)))
      else - 1)"

text \<open>
  \<open>PurePath.suffix\<close> of a file name: from the last dot on, unless that dot is the
  first or the last character of the name.
\<close>

definition name_suffix :: "string \<Rightarrow> string" where
  "name_suffix n =
     (let i = rfind (CHR ''.'') n
      in if 0 < i \<and> i < int (length n) - 1 then drop (nat i) n else [])"

text \<open>
  \<open>PurePath.with_suffix('')\<close>: a path with an empty name raises \<open>ValueError\<close>;
  otherwise the suffix of the last component is cut off.
\<close>

definition with_suffix_empty :: "path \<Rightarrow> error + path" where
  "with_suffix_empty p =
     (let n = path_name p in
      if n = [] then Inl (ValueError ''path has an empty name'')
      else let old_suffix = name_suffix n in
        if old_suffix = [] then Inr (butlast p @ [n])
        else Inr (butlast p @ [take (length n - length old_suffix) n]))"

text \<open>\<open>str.replace\<close> with one-character arguments.\<close>

definition replace_char :: "char \<Rightarrow> char \<Rightarrow> string \<Rightarrow> string" where
  "replace_char a b s = map (\<lambda>c. if c = a then b else c) s"

text \<open>
  The dotted name of a path relative to the parent of the root (lines 88 to 90 of the
  source): an \<open>__init__.py\<close> stands for its directory, then the suffix of the last
  component goes, then the separators become dots.
\<close>

definition dotted_name :: "path \<Rightarrow> error + string" where
  "dotted_name mp =
     (let mp' = (if path_name mp = ''__init__.py'' then path_parent mp else mp) in
      case with_suffix_empty mp' of
        Inl e \<Rightarrow> Inl e
      | Inr q \<Rightarrow> Inr (replace_char (CHR ''/'') (CHR ''.'') (path_str q)))"

subsection \<open>The source tree\<close>

text \<open>
  One entry for every file below the root directory \<open>my_root\<close>: the directories from
  the root down to the file, the file's name, whether the entry is a symbolic link, and
  the outcome of \<open>ast.parse(f.read_text())\<close> on it, which is a tree or the exception
  that reading or parsing raised.
\<close>

record source_file =
  dirs :: "string list"
  fname :: string
  is_symlink :: bool
  parsed :: "error + pymodule"

definition rel_path :: "source_file \<Rightarrow> path" where
  "rel_path f = dirs f @ [fname f]"

text \<open>\<open>my_root.rglob('*.py')\<close> keeps the entries whose name ends in \<open>.py\<close>.\<close>

definition glob_py :: "source_file \<Rightarrow> bool" where
  "glob_py f = suffix ''.py'' (fname f)"

text \<open>
  \<open>sorted\<close> orders paths by their component lists, and strings by their characters;
  all the paths share the components down to the root, so the order is that of the
  components below it.
\<close>

definition sorted_rglob :: "source_file list \<Rightarrow> source_file list" where
  "sorted_rglob files = sort_key rel_path (filter glob_py files)"

subsection \<open>Discovery\<close>

record HPIModule =
  name :: string
  skip_reason :: "string option"
  doc :: "string option"
  "file" :: "path option"
  "requires" :: "pyconst list option"

text \<open>
  \<open>all_modules\<close> is a generator. What a consumer sees of one pass is a finite trace:
  records yielded, exceptions logged by \<open>logging.exception\<close>, and the end of the pass,
  which is either normal exhaustion or an exception that leaves the generator.
\<close>

datatype trace =
    Done
  | Raised error
  | Yield HPIModule trace
  | Logged error trace

text \<open>
  What the body of the \<open>for\<close> loop of \<open>all_modules\<close> does with one file: it passes
  the file over (\<open>continue\<close>), lets an exception escape, or yields a record, after
  logging the exception of the requirements extraction if there was one.
  \<open>root\<close> is the name of the directory \<open>my_root\<close>, so that
  \<open>f.relative_to(my_root.parent)\<close> is \<open>root # rel_path f\<close>.
\<close>

datatype outcome =
    Skipped
  | Failed error
  | Emitted HPIModule "error option"

definition visit :: "string \<Rightarrow> source_file \<Rightarrow> outcome" where
  "visit root f =
     (if is_symlink f then Skipped
      else let mp = root # rel_path f in
        case dotted_name mp of
          Inl e \<Rightarrow> Failed e
        | Inr m \<Rightarrow>
            if ignored m then Skipped
            else case parsed f of
              Inl e \<Rightarrow> Failed e
            | Inr a \<Rightarrow>
                if is_not_module a then Skipped
                else let d = get_docstring a in
                  case extract_requirements a of
                    Inl e \<Rightarrow>
                      Emitted \<lparr>name = m, skip_reason = None, doc = d,
                               file = Some mp, requires = None\<rparr> (Some e)
                  | Inr r \<Rightarrow>
                      Emitted \<lparr>name = m, skip_reason = None, doc = d,
                               file = Some mp, requires = r\<rparr> None)"

text \<open>The loop over the sorted files.\<close>

fun walk :: "string \<Rightarrow> source_file list \<Rightarrow> trace" where
  "walk root [] = Done"
| "walk root (f # fs) =
     (case visit root f of
        Skipped \<Rightarrow> walk root fs
      | Failed e \<Rightarrow> Raised e
      | Emitted r None \<Rightarrow> Yield r (walk root fs)
      | Emitted r (Some e) \<Rightarrow> Logged e (Yield r (walk root fs)))"

definition all_modules :: "string \<Rightarrow> source_file list \<Rightarrow> trace" where
  "all_modules root files = walk root (sorted_rglob files)"

text \<open>
  \<open>module_by_name\<close> consumes the generator until a record has the name; an exception
  that leaves the generator leaves \<open>module_by_name\<close> too.
\<close>

fun first_named :: "string \<Rightarrow> trace \<Rightarrow> error + HPIModule" where
  "first_named n Done = Inl (RuntimeError (''No such module: '' @ n))"
| "first_named n (Raised e) = Inl e"
| "first_named n (Yield m t) = (if name m = n then Inr m else first_named n t)"
| "first_named n (Logged e t) = first_named n t"

definition module_by_name :: "string \<Rightarrow> source_file list \<Rightarrow> string \<Rightarrow> error + HPIModule" where
  "module_by_name root files n = first_named n (all_modules root files)"

text \<open>What a trace holds: the records in order, the logged exceptions, the final exception.\<close>

fun yielded :: "trace \<Rightarrow> HPIModule list" where
  "yielded Done = []"
| "yielded (Raised e) = []"
| "yielded (Yield m t) = m # yielded t"
| "yielded (Logged e t) = yielded t"

fun logged :: "trace \<Rightarrow> error list" where
  "logged Done = []"
| "logged (Raised e) = []"
| "logged (Yield m t) = logged t"
| "logged (Logged e t) = e # logged t"

fun raised :: "trace \<Rightarrow> error option" where
  "raised Done = None"
| "raised (Raised e) = Some e"
| "raised (Yield m t) = raised t"
| "raised (Logged e t) = raised t"

section \<open>Vocabulary of the properties\<close>

text \<open>
  Predicates and sample data for stating the properties; none of them is part of the
  source.
\<close>

text \<open>A top-level assignment to the single target \<open>REQUIRES\<close>.\<close>

fun declares_requires :: "stmt \<Rightarrow> bool" where
  "declares_requires (Assign [t] v) = (expr_id t = Some REQUIRES)"
| "declares_requires _ = False"

text \<open>
  An assignment with \<open>REQUIRES\<close> among its targets, and one that is chained (it has two
  or more targets).
\<close>

fun chained_requires :: "stmt \<Rightarrow> bool" where
  "chained_requires (Assign tg v) = (2 \<le> length tg \<and> list_ex (\<lambda>t. expr_id t = Some REQUIRES) tg)"
| "chained_requires _ = False"

fun assigns_requires :: "stmt \<Rightarrow> bool" where
  "assigns_requires (Assign tg v) = list_ex (\<lambda>t. expr_id t = Some REQUIRES) tg"
| "assigns_requires _ = False"

text \<open>A string literal as the parser of Python 3.8 and later gives it.\<close>

definition string_constant :: "string \<Rightarrow> expr" where
  "string_constant s = Constant (CStr s)"

text \<open>An element of the display that the inner loop of the extractor accepts.\<close>

fun is_literal :: "expr \<Rightarrow> bool" where
  "is_literal (Constant _) = True"
| "is_literal (Str _) = True"
| "is_literal _ = False"

text \<open>
  A file is eligible when the loop yields a record for it: it is no symbolic link, its
  dotted name is not excluded, it parses, and its tree has no opt-out marker. A file
  aborts the pass when an exception escapes the loop body.
\<close>

definition eligible :: "string \<Rightarrow> source_file \<Rightarrow> bool" where
  "eligible root f =
     (\<not> is_symlink f
      \<and> (case dotted_name (root # rel_path f) of Inl e \<Rightarrow> False | Inr m \<Rightarrow> \<not> ignored m)
      \<and> (case parsed f of Inl e \<Rightarrow> False | Inr a \<Rightarrow> \<not> is_not_module a))"

definition aborts :: "string \<Rightarrow> source_file \<Rightarrow> bool" where
  "aborts root f = (case visit root f of Failed e \<Rightarrow> True | _ \<Rightarrow> False)"

text \<open>The records of one outcome of the loop body.\<close>

fun emitted_record :: "outcome \<Rightarrow> HPIModule list" where
  "emitted_record (Emitted r lg) = [r]"
| "emitted_record _ = []"

subsection \<open>Sample files\<close>

text \<open>Files of a tree below the root directory \<open>my\<close>, for the instances of the properties.\<close>

definition src :: "string list \<Rightarrow> string \<Rightarrow> pymodule \<Rightarrow> source_file" where
  "src ds n a = \<lparr>dirs = ds, fname = n, is_symlink = False, parsed = Inr a\<rparr>"

definition demo_body :: pymodule where
  "demo_body = [Expr (Constant (CStr ''Just a demo module'')), Import [Alias ''json'' None]]"

definition demo_py :: source_file where
  "demo_py = src [] ''demo.py'' demo_body"

definition demo_record :: HPIModule where
  "demo_record = \<lparr>name = ''my.demo'', skip_reason = None, doc = Some ''Just a demo module'',
                  file = Some [''my'', ''demo.py''], requires = None\<rparr>"

definition empty_body :: pymodule where
  "empty_body = [Assign [Name ''REQUIRES''] (ListE [])]"

definition empty_py :: source_file where
  "empty_py = src [] ''empty.py'' empty_body"

definition empty_record :: HPIModule where
  "empty_record = \<lparr>name = ''my.empty'', skip_reason = None, doc = None,
                   file = Some [''my'', ''empty.py''], requires = Some []\<rparr>"

definition photos_body :: pymodule where
  "photos_body =
     [Expr (Constant (CStr ''Photos'')),
      Assign [Name ''REQUIRES''] (ListE [Constant (CStr ''a''), Constant (CStr ''b'')])]"

definition photos_main_py :: source_file where
  "photos_main_py = src [''photos''] ''main.py'' photos_body"

definition photos_record :: HPIModule where
  "photos_record = \<lparr>name = ''my.photos.main'', skip_reason = None, doc = Some ''Photos'',
                    file = Some [''my'', ''photos'', ''main.py''],
                    requires = Some [CStr ''a'', CStr ''b'']\<rparr>"

definition sample_tree :: "source_file list" where
  "sample_tree = [photos_main_py, empty_py, demo_py]"

definition chained_body :: pymodule where
  "chained_body = [Assign [Name ''REQUIRES'', Name ''OTHER''] (ListE [Constant (CStr ''a'')])]"

definition chained_py :: source_file where
  "chained_py = src [] ''chained.py'' chained_body"

definition chained_record :: HPIModule where
  "chained_record = \<lparr>name = ''my.chained'', skip_reason = None, doc = None,
                   file = Some [''my'', ''chained.py''], requires = None\<rparr>"

definition computed_body :: pymodule where
  "computed_body = [Assign [Name ''REQUIRES''] (Call (Name ''load_requirements'') [])]"

definition computed_py :: source_file where
  "computed_py = src [] ''computed.py'' computed_body"

definition computed_record :: HPIModule where
  "computed_record = \<lparr>name = ''my.computed'', skip_reason = None, doc = None,
                   file = Some [''my'', ''computed.py''], requires = None\<rparr>"

definition numbers_body :: pymodule where
  "numbers_body = [Assign [Name ''REQUIRES''] (ListE [Constant (CStr ''a''), Constant (CInt 1)])]"

definition numbers_py :: source_file where
  "numbers_py = src [] ''numbers.py'' numbers_body"

definition faulty_py :: source_file where
  "faulty_py = \<lparr>dirs = [], fname = ''faulty.py'', is_symlink = False,
                 parsed = Inl (ParseFailure ''invalid syntax'')\<rparr>"

text \<open>
  A top-level statement that defines a function or class named \<open>__NOT_HPI_MODULE__\<close>,
  or imports that name.
\<close>

fun marks_not_module :: "stmt \<Rightarrow> bool" where
  "marks_not_module (FunctionDef n _) = (n = NOT_HPI_MODULE_VAR)"
| "marks_not_module (AsyncFunctionDef n _) = (n = NOT_HPI_MODULE_VAR)"
| "marks_not_module (ClassDef n _) = (n = NOT_HPI_MODULE_VAR)"
| "marks_not_module (Import ns) = list_ex (\<lambda>a. alias_name a = NOT_HPI_MODULE_VAR) ns"
| "marks_not_module (ImportFrom _ ns) = list_ex (\<lambda>a. alias_name a = NOT_HPI_MODULE_VAR) ns"
| "marks_not_module _ = False"

definition helper_body :: pymodule where
  "helper_body = [ImportFrom (Some ''core'') [Alias ''__NOT_HPI_MODULE__'' None],
                  FunctionDef ''helper'' []]"

definition helper_py :: source_file where
  "helper_py = src [''photos''] ''utils.py'' helper_body"

definition marker_variable_py :: source_file where
  "marker_variable_py = src [] ''flagged.py''
     [Assign [Name ''__NOT_HPI_MODULE__''] (Constant (CBool True))]"

definition marker_asname_py :: source_file where
  "marker_asname_py = src [] ''renamed.py''
     [Import [Alias ''helpers'' (Some ''__NOT_HPI_MODULE__'')]]"

text \<open>
  The spec's words for the exclusion filter: the name is the \<open>core\<close> or the \<open>config\<close>
  subnamespace of the root namespace \<open>my\<close>, or lies below one of them.
\<close>

definition ignored_spec :: "string \<Rightarrow> bool" where
  "ignored_spec m =
     (m = ''my.core'' \<or> prefix ''my.core.'' m \<or> m = ''my.config'' \<or> prefix ''my.config.'' m)"

definition coreutils_py :: source_file where
  "coreutils_py = src [] ''coreutils.py'' demo_body"

definition core_common_py :: source_file where
  "core_common_py = src [''core''] ''common.py'' demo_body"

text \<open>
  The spec's words for the name of a path: strip the extension; if the final component
  that remains is the package-init name, drop it; replace the separators by dots.
\<close>

definition canonical_name_spec :: "path \<Rightarrow> error + string" where
  "canonical_name_spec p =
     (case with_suffix_empty p of
        Inl e \<Rightarrow> Inl e
      | Inr q \<Rightarrow>
          Inr (replace_char (CHR ''/'') (CHR ''.'')
                 (path_str (if path_name q = ''__init__'' then path_parent q else q))))"

definition versioned_init_py :: source_file where
  "versioned_init_py = src [''pkg.v2''] ''__init__.py'' demo_body"

definition foo_init_record :: HPIModule where
  "foo_init_record = \<lparr>name = ''my.foo'', skip_reason = None, doc = Some ''Just a demo module'',
                      file = Some [''my'', ''foo'', ''__init__.py''], requires = None\<rparr>"

definition foo_py :: source_file where
  "foo_py = src [] ''foo.py'' demo_body"

definition foo_init_py :: source_file where
  "foo_init_py = src [''foo''] ''__init__.py'' demo_body"

text \<open>The name without its suffix, as \<open>with_suffix('')\<close> leaves it (\<open>PurePath.stem\<close>).\<close>

definition stem :: "string \<Rightarrow> string" where
  "stem n = (if name_suffix n = [] then n else take (length n - length (name_suffix n)) n)"

section \<open>Properties\<close>

subsection \<open>Requirements extraction\<close>

lemma collect_deps_strings:
  "collect_deps acc (map string_constant xs) = Inr (acc @ map CStr xs)"
  by (induction xs arbitrary: acc) (simp_all add: string_constant_def)

lemma extract_skip_one:
  "\<not> declares_requires x \<Longrightarrow> extract_requirements (x # xs) = extract_requirements xs"
  by (cases x rule: declares_requires.cases) (simp_all split: stmt.splits)

lemma extract_skip:
  "\<forall>x\<in>set pre. \<not> declares_requires x \<Longrightarrow>
   extract_requirements (pre @ post) = extract_requirements post"
  by (induction pre) (simp_all add: extract_skip_one del: extract_requirements.simps)

lemma extract_none:
  "\<forall>x\<in>set a. \<not> declares_requires x \<Longrightarrow> extract_requirements a = Inr None"
  using extract_skip [of a "[]"] by simp

lemma find_split:
  "find P xs = Some x \<Longrightarrow> \<exists>pre post. xs = pre @ x # post \<and> (\<forall>y\<in>set pre. \<not> P y) \<and> P x"
proof (induction xs)
  case Nil
  then show ?case by simp
next
  case (Cons y ys)
  show ?case
  proof (cases "P y")
    case True
    with Cons.prems have "y = x" by simp
    with True have "y # ys = [] @ x # ys \<and> (\<forall>y\<in>set []. \<not> P y) \<and> P x" by simp
    then show ?thesis by blast
  next
    case False
    with Cons.prems have "find P ys = Some x" by simp
    from Cons.IH [OF this] obtain pre post
      where "ys = pre @ x # post" "\<forall>y\<in>set pre. \<not> P y" "P x" by blast
    with False have "y # ys = (y # pre) @ x # post \<and> (\<forall>z\<in>set (y # pre). \<not> P z) \<and> P x" by simp
    then show ?thesis by blast
  qed
qed

lemma extract_first:
  assumes "find declares_requires a = Some (Assign [t] v)"
  shows "extract_requirements a =
           (case expr_elts v of
              None \<Rightarrow> extract_requirements (tl (dropWhile (\<lambda>x. \<not> declares_requires x) a))
            | Some elts \<Rightarrow> (case collect_deps [] elts of Inl e \<Rightarrow> Inl e | Inr deps \<Rightarrow> Inr (Some deps)))"
proof -
  from find_split [OF assms] obtain pre post
    where a: "a = pre @ Assign [t] v # post" and pre: "\<forall>y\<in>set pre. \<not> declares_requires y"
      and d: "declares_requires (Assign [t] v)" by blast
  have dw: "dropWhile (\<lambda>x. \<not> declares_requires x) a = Assign [t] v # post"
    using a pre d by (simp add: dropWhile_append3)
  have "extract_requirements a = extract_requirements (Assign [t] v # post)"
    using a pre extract_skip by blast
  then show ?thesis using d dw by (simp split: option.splits)
qed

subsection \<open>The walk\<close>

lemma visit_Emitted:
  assumes "visit root f = Emitted r lg"
  shows "\<exists>m a. \<not> is_symlink f \<and> dotted_name (root # rel_path f) = Inr m \<and> \<not> ignored m
           \<and> parsed f = Inr a \<and> \<not> is_not_module a
           \<and> r = \<lparr>name = m, skip_reason = None, doc = get_docstring a,
                   file = Some (root # rel_path f),
                   requires = (case extract_requirements a of Inl e \<Rightarrow> None | Inr x \<Rightarrow> x)\<rparr>
           \<and> lg = (case extract_requirements a of Inl e \<Rightarrow> Some e | Inr x \<Rightarrow> None)"
  using assms unfolding visit_def Let_def
  by (auto split: if_splits sum.split_asm)

lemma visit_eligible:
  "eligible root f \<longleftrightarrow> (\<exists>r lg. visit root f = Emitted r lg)"
  unfolding visit_def eligible_def Let_def
  by (auto split: if_splits sum.splits)

lemma yielded_walk_origin:
  "r \<in> set (yielded (walk root fs)) \<Longrightarrow> \<exists>f\<in>set fs. \<exists>lg. visit root f = Emitted r lg"
proof (induction fs)
  case Nil
  then show ?case by simp
next
  case (Cons f fs)
  then show ?case
    by (cases "visit root f") (auto split: option.splits)
qed

lemma set_sorted_rglob: "set (sorted_rglob files) = {f \<in> set files. glob_py f}"
  by (simp add: sorted_rglob_def)

lemma yielded_all_modules_origin:
  assumes "r \<in> set (yielded (all_modules root files))"
  shows "\<exists>f\<in>set files. \<exists>lg. glob_py f \<and> visit root f = Emitted r lg"
  using yielded_walk_origin [of r root "sorted_rglob files"] assms
  by (auto simp: all_modules_def set_sorted_rglob)

lemma raised_walk_append:
  "raised (walk root pre) = None \<Longrightarrow> raised (walk root (pre @ post)) = raised (walk root post)"
  by (induction pre) (auto split: outcome.splits option.splits)

lemma yielded_walk_append:
  "raised (walk root pre) = None \<Longrightarrow>
   yielded (walk root (pre @ post)) = yielded (walk root pre) @ yielded (walk root post)"
  by (induction pre) (auto split: outcome.splits option.splits)

lemma logged_walk_append:
  "raised (walk root pre) = None \<Longrightarrow>
   logged (walk root (pre @ post)) = logged (walk root pre) @ logged (walk root post)"
  by (induction pre) (auto split: outcome.splits option.splits)

lemma yielded_walk_complete:
  "raised (walk root fs) = None \<Longrightarrow>
   yielded (walk root fs) = concat (map (\<lambda>f. emitted_record (visit root f)) fs)"
  by (induction fs) (auto split: outcome.splits option.splits)

lemma yielded_walk_member:
  "raised (walk root fs) = None \<Longrightarrow> f \<in> set fs \<Longrightarrow> visit root f = Emitted r lg \<Longrightarrow>
   r \<in> set (yielded (walk root fs))"
  by (simp add: yielded_walk_complete) force

lemma yielded_all_modules_member:
  assumes "raised (all_modules root files) = None" "f \<in> set files" "glob_py f"
    "visit root f = Emitted r lg"
  shows "r \<in> set (yielded (all_modules root files))"
  using assms yielded_walk_member [of root "sorted_rglob files" f r lg]
  by (simp add: all_modules_def set_sorted_rglob)

lemma visit_requires:
  assumes "visit root f = Emitted r lg" "parsed f = Inr a"
  shows "requires r = (case extract_requirements a of Inl e \<Rightarrow> None | Inr x \<Rightarrow> x)"
    and "lg = (case extract_requirements a of Inl e \<Rightarrow> Some e | Inr x \<Rightarrow> None)"
  using visit_Emitted [OF assms(1)] assms(2) by auto

subsection \<open>The requirements declaration\<close>

text \<open>
  Claim C1. For a file from which the loop of \<open>all_modules\<close> emits a record \<open>r\<close>
  (and \<open>r\<close> is in the output of every pass that runs to its end): when no top-level
  statement assigns to the single target \<open>REQUIRES\<close>, \<open>requires r\<close> is absent; when the
  file's assignment to \<open>REQUIRES\<close> is \<open>REQUIRES = []\<close>, \<open>requires r\<close> is present and
  empty; when it is a list of string literals (as in \<open>REQUIRES = ["a", "b"]\<close>),
  \<open>requires r\<close> holds those strings in the order written.
\<close>

theorem requires_three_valued:
  assumes "f \<in> set files" and "glob_py f"
    and "visit root f = Emitted r lg" and "parsed f = Inr a"
  shows "(raised (all_modules root files) = None \<longrightarrow> r \<in> set (yielded (all_modules root files)))
       \<and> (list_all (\<lambda>x. \<not> declares_requires x) a \<longrightarrow> requires r = None)
       \<and> (find declares_requires a = Some (Assign [Name REQUIRES] (ListE []))
            \<longrightarrow> requires r = Some [])
       \<and> (find declares_requires a = Some (Assign [Name REQUIRES] (ListE (map string_constant xs)))
            \<longrightarrow> requires r = Some (map CStr xs))"
proof (intro conjI impI)
  assume "raised (all_modules root files) = None"
  then show "r \<in> set (yielded (all_modules root files))"
    using assms yielded_all_modules_member by blast
next
  assume "list_all (\<lambda>x. \<not> declares_requires x) a"
  then have "extract_requirements a = Inr None"
    by (intro extract_none) (simp add: list_all_iff)
  then show "requires r = None" using visit_requires(1) [OF assms(3,4)] by simp
next
  assume "find declares_requires a = Some (Assign [Name REQUIRES] (ListE []))"
  from extract_first [OF this] have "extract_requirements a = Inr (Some [])" by simp
  then show "requires r = Some []" using visit_requires(1) [OF assms(3,4)] by simp
next
  assume "find declares_requires a = Some (Assign [Name REQUIRES] (ListE (map string_constant xs)))"
  from extract_first [OF this] have "extract_requirements a = Inr (Some (map CStr xs))"
    by (simp add: collect_deps_strings)
  then show "requires r = Some (map CStr xs)" using visit_requires(1) [OF assms(3,4)] by simp
qed

theorem requires_three_valued_witness:
  "demo_py \<in> set sample_tree \<and> glob_py demo_py
   \<and> visit ''my'' demo_py = Emitted demo_record None \<and> parsed demo_py = Inr demo_body
   \<and> list_all (\<lambda>x. \<not> declares_requires x) demo_body
   \<and> requires demo_record = None
   \<and> demo_record \<in> set (yielded (all_modules ''my'' sample_tree))
   \<and> empty_py \<in> set sample_tree \<and> glob_py empty_py
   \<and> visit ''my'' empty_py = Emitted empty_record None \<and> parsed empty_py = Inr empty_body
   \<and> find declares_requires empty_body = Some (Assign [Name REQUIRES] (ListE []))
   \<and> requires empty_record = Some []
   \<and> empty_record \<in> set (yielded (all_modules ''my'' sample_tree))
   \<and> photos_main_py \<in> set sample_tree \<and> glob_py photos_main_py
   \<and> visit ''my'' photos_main_py = Emitted photos_record None
   \<and> parsed photos_main_py = Inr photos_body
   \<and> find declares_requires photos_body
         = Some (Assign [Name REQUIRES] (ListE (map string_constant [''a'', ''b''])))
   \<and> requires photos_record = Some [CStr ''a'', CStr ''b'']
   \<and> photos_record \<in> set (yielded (all_modules ''my'' sample_tree))"
proof -
  have fin: "raised (all_modules ''my'' sample_tree) = None" by code_simp
  have d1: "demo_py \<in> set sample_tree" and d2: "glob_py demo_py"
    and d3: "visit ''my'' demo_py = Emitted demo_record None"
    and d4: "parsed demo_py = Inr demo_body"
    and d5: "list_all (\<lambda>x. \<not> declares_requires x) demo_body"
    by code_simp+
  have e1: "empty_py \<in> set sample_tree" and e2: "glob_py empty_py"
    and e3: "visit ''my'' empty_py = Emitted empty_record None"
    and e4: "parsed empty_py = Inr empty_body"
    and e5: "find declares_requires empty_body = Some (Assign [Name REQUIRES] (ListE []))"
    by code_simp+
  have p1: "photos_main_py \<in> set sample_tree" and p2: "glob_py photos_main_py"
    and p3: "visit ''my'' photos_main_py = Emitted photos_record None"
    and p4: "parsed photos_main_py = Inr photos_body"
    and p5: "find declares_requires photos_body
               = Some (Assign [Name REQUIRES] (ListE (map string_constant [''a'', ''b''])))"
    by code_simp+
  note D = requires_three_valued [OF d1 d2 d3 d4, of "[]"]
  note E = requires_three_valued [OF e1 e2 e3 e4, of "[]"]
  note P = requires_three_valued [OF p1 p2 p3 p4, of "[''a'', ''b'']"]
  have "requires demo_record = None"
    and "demo_record \<in> set (yielded (all_modules ''my'' sample_tree))"
    using D fin d5 by simp_all
  moreover have "requires empty_record = Some []"
    and "empty_record \<in> set (yielded (all_modules ''my'' sample_tree))"
    using E fin e5 by simp_all
  moreover have "requires photos_record = Some [CStr ''a'', CStr ''b'']"
    and "photos_record \<in> set (yielded (all_modules ''my'' sample_tree))"
    using P fin p5 by simp_all
  ultimately show ?thesis
    using d1 d2 d3 d4 d5 e1 e2 e3 e4 e5 p1 p2 p3 p4 p5 by simp
qed

text \<open>
  Claim C10. A file in which every top-level assignment with \<open>REQUIRES\<close> among its
  targets is chained (two or more targets, as in \<open>REQUIRES = OTHER = ["a"]\<close>): the
  extractor passes those statements over, so extraction returns \<open>None\<close> without raising,
  the record emitted for the file has \<open>requires\<close> absent and nothing is logged for it.
\<close>

theorem chained_assignment_skipped:
  assumes "f \<in> set files" and "glob_py f"
    and "visit root f = Emitted r lg" and "parsed f = Inr a"
    and "list_all (\<lambda>x. assigns_requires x \<longrightarrow> chained_requires x) a"
  shows "extract_requirements a = Inr None \<and> requires r = None \<and> lg = None"
proof -
  have "\<not> declares_requires x" if "x \<in> set a" for x
  proof
    assume d: "declares_requires x"
    then obtain t v where x: "x = Assign [t] v" and "expr_id t = Some REQUIRES"
      by (cases x rule: declares_requires.cases) simp_all
    then have "assigns_requires x" by simp
    with assms(5) that have "chained_requires x" by (simp add: list_all_iff)
    with x show False by simp
  qed
  then have "extract_requirements a = Inr None" by (intro extract_none) simp
  then show ?thesis using visit_requires [OF assms(3,4)] by simp
qed

theorem chained_assignment_skipped_witness:
  "chained_py \<in> set [demo_py, chained_py] \<and> glob_py chained_py
   \<and> visit ''my'' chained_py = Emitted chained_record None
   \<and> parsed chained_py = Inr chained_body
   \<and> list_all assigns_requires chained_body \<and> list_all chained_requires chained_body
   \<and> extract_requirements chained_body = Inr None
   \<and> requires chained_record = None
   \<and> logged (all_modules ''my'' [demo_py, chained_py]) = []"
proof -
  have c1: "chained_py \<in> set [demo_py, chained_py]" and c2: "glob_py chained_py"
    and c3: "visit ''my'' chained_py = Emitted chained_record None"
    and c4: "parsed chained_py = Inr chained_body"
    and c5: "list_all assigns_requires chained_body"
    and c6: "list_all chained_requires chained_body"
    and c7: "logged (all_modules ''my'' [demo_py, chained_py]) = []"
    by code_simp+
  have c8: "list_all (\<lambda>x. assigns_requires x \<longrightarrow> chained_requires x) chained_body"
    using c6 by (simp add: list_all_iff)
  from chained_assignment_skipped [OF c1 c2 c3 c4 c8]
  show ?thesis using c1 c2 c3 c4 c5 c6 c7 by simp
qed

lemma extract_requirements_cong_skip:
  "extract_requirements xs = extract_requirements ys \<Longrightarrow>
   extract_requirements (x # xs) = extract_requirements (x # ys)"
  by (cases x) (simp_all split: option.split)

text \<open>
  Claim C4 (amended). A top-level assignment to the single target \<open>REQUIRES\<close> whose value
  is not a list, tuple or set display (it has no \<open>elts\<close>) is passed over without any
  error: extraction gives what it gives for the file without that statement.
\<close>

theorem non_collection_value_passed_over:
  assumes "expr_elts v = None"
  shows "extract_requirements (pre @ Assign [Name REQUIRES] v # post)
           = extract_requirements (pre @ post)
       \<and> (list_all (\<lambda>x. \<not> declares_requires x) (pre @ post)
            \<longrightarrow> extract_requirements (pre @ Assign [Name REQUIRES] v # post) = Inr None)"
proof -
  have eq: "extract_requirements (pre @ Assign [Name REQUIRES] v # post)
              = extract_requirements (pre @ post)"
  proof (induction pre)
    case Nil
    show ?case using assms by simp
  next
    case (Cons x pre)
    have "extract_requirements (x # (pre @ Assign [Name REQUIRES] v # post))
            = extract_requirements (x # (pre @ post))"
      using Cons.IH by (rule extract_requirements_cong_skip)
    then show ?case by (simp only: append_Cons)
  qed
  have "extract_requirements (pre @ post) = Inr None"
    if "list_all (\<lambda>x. \<not> declares_requires x) (pre @ post)"
    using that by (intro extract_none) (simp add: list_all_iff)
  with eq show ?thesis by simp
qed

theorem non_collection_value_passed_over_witness:
  "expr_elts (Call (Name ''load_requirements'') []) = None
   \<and> extract_requirements ([] @ Assign [Name REQUIRES] (Call (Name ''load_requirements'') []) # photos_body)
       = extract_requirements ([] @ photos_body)
   \<and> extract_requirements photos_body = Inr (Some [CStr ''a'', CStr ''b''])
   \<and> list_all (\<lambda>x. \<not> declares_requires x) (demo_body @ [])
   \<and> extract_requirements (demo_body @ Assign [Name REQUIRES] (Call (Name ''load_requirements'') []) # [])
       = Inr None"
proof -
  have h: "expr_elts (Call (Name ''load_requirements'') []) = None" by simp
  have p: "extract_requirements photos_body = Inr (Some [CStr ''a'', CStr ''b''])"
    and d: "list_all (\<lambda>x. \<not> declares_requires x) (demo_body @ [])"
    by code_simp+
  from non_collection_value_passed_over [OF h, of "[]" photos_body]
  have "extract_requirements ([] @ Assign [Name REQUIRES] (Call (Name ''load_requirements'') []) # photos_body)
       = extract_requirements ([] @ photos_body)" by blast
  moreover from non_collection_value_passed_over [OF h, of demo_body "[]"] d
  have "extract_requirements (demo_body @ Assign [Name REQUIRES] (Call (Name ''load_requirements'') []) # [])
       = Inr None" by blast
  ultimately show ?thesis using h p d by simp
qed

text \<open>
  Claim C4 as stated fails: for \<open>REQUIRES = load_requirements()\<close> extraction returns
  \<open>None\<close> normally, and the pass yields the record with nothing logged.
\<close>

theorem non_collection_value_counterexample:
  "extract_requirements computed_body = Inr None
   \<and> all_modules ''my'' [computed_py] = Yield computed_record Done"
  by code_simp

text \<open>
  Claim C2 at the input \<open>REQUIRES = ["a", 1]\<close>: the number is an \<open>ast.Constant\<close>, so
  its value is appended like a string's; no exception is raised or logged, and the
  record's \<open>requires\<close> holds the number.
\<close>

theorem non_string_constant_accepted:
  "all_modules ''my'' [numbers_py] =
     Yield \<lparr>name = ''my.numbers'', skip_reason = None, doc = None,
            file = Some [''my'', ''numbers.py''], requires = Some [CStr ''a'', CInt 1]\<rparr> Done"
  by code_simp

lemma collect_deps_non_literal:
  "\<not> list_all is_literal es \<Longrightarrow> collect_deps acc es = Inl (RuntimeError requires_message)"
proof (induction es arbitrary: acc)
  case Nil
  then show ?case by simp
next
  case (Cons c cs)
  then show ?case by (cases c) simp_all
qed

text \<open>
  An element that is no constant at all (a name, a call) raises in the extractor; the
  loop logs the exception and yields the record with \<open>requires\<close> absent.
\<close>

lemma non_literal_element_logged:
  assumes "visit root f = Emitted r lg" and "parsed f = Inr a"
    and "find declares_requires a = Some (Assign [t] v)" and "expr_elts v = Some es"
    and "\<not> list_all is_literal es"
  shows "requires r = None \<and> lg = Some (RuntimeError requires_message)"
proof -
  from extract_first [OF assms(3)] assms(4,5)
  have "extract_requirements a = Inl (RuntimeError requires_message)"
    by (simp add: collect_deps_non_literal)
  then show ?thesis using visit_requires [OF assms(1,2)] by simp
qed

subsection \<open>Lookup by name\<close>

lemma first_named_eq:
  "first_named n t =
     (case find (\<lambda>m. name m = n) (yielded t) of
        Some m \<Rightarrow> Inr m
      | None \<Rightarrow> (case raised t of
                   None \<Rightarrow> Inl (RuntimeError (''No such module: '' @ n))
                 | Some e \<Rightarrow> Inl e))"
  by (induction t) (simp_all split: option.split)

lemma find_Some_member: "find P xs = Some x \<Longrightarrow> x \<in> set xs \<and> P x"
  by (induction xs) (auto split: if_splits)

text \<open>
  Claim C5. \<open>module_by_name\<close> returns the first record of the pass, in the order of
  the pass, whose name is the argument; when the pass runs to its end with no such
  record it fails with the error \<open>No such module: <name>\<close>; whatever it returns is a
  record of the pass with that name, never a placeholder. (An exception that ends the
  pass before a match leaves \<open>module_by_name\<close> as it is.)
\<close>

theorem module_by_name_first_match:
  "module_by_name root files n =
     (case find (\<lambda>m. name m = n) (yielded (all_modules root files)) of
        Some m \<Rightarrow> Inr m
      | None \<Rightarrow> (case raised (all_modules root files) of
                   None \<Rightarrow> Inl (RuntimeError (''No such module: '' @ n))
                 | Some e \<Rightarrow> Inl e))
   \<and> (\<forall>m. module_by_name root files n = Inr m
          \<longrightarrow> m \<in> set (yielded (all_modules root files)) \<and> name m = n)"
proof -
  have eq: "module_by_name root files n =
     (case find (\<lambda>m. name m = n) (yielded (all_modules root files)) of
        Some m \<Rightarrow> Inr m
      | None \<Rightarrow> (case raised (all_modules root files) of
                   None \<Rightarrow> Inl (RuntimeError (''No such module: '' @ n))
                 | Some e \<Rightarrow> Inl e))"
    by (simp add: module_by_name_def first_named_eq)
  have "m \<in> set (yielded (all_modules root files)) \<and> name m = n"
    if "module_by_name root files n = Inr m" for m
  proof -
    from that eq have "find (\<lambda>m. name m = n) (yielded (all_modules root files)) = Some m"
      by (auto split: option.splits)
    then show ?thesis by (rule find_Some_member)
  qed
  with eq show ?thesis by blast
qed

theorem module_by_name_first_match_witness:
  "module_by_name ''my'' sample_tree ''my.demo'' = Inr demo_record
   \<and> demo_record \<in> set (yielded (all_modules ''my'' sample_tree))
   \<and> name demo_record = ''my.demo''
   \<and> find (\<lambda>m. name m = ''my.nothing'') (yielded (all_modules ''my'' sample_tree)) = None
   \<and> raised (all_modules ''my'' sample_tree) = None
   \<and> module_by_name ''my'' sample_tree ''my.nothing''
        = Inl (RuntimeError ''No such module: my.nothing'')"
proof -
  have a: "module_by_name ''my'' sample_tree ''my.demo'' = Inr demo_record" by code_simp
  have b: "find (\<lambda>m. name m = ''my.nothing'') (yielded (all_modules ''my'' sample_tree)) = None"
    and c: "raised (all_modules ''my'' sample_tree) = None"
    by code_simp+
  from module_by_name_first_match [of "''my''" sample_tree "''my.demo''"] a
  have "demo_record \<in> set (yielded (all_modules ''my'' sample_tree)) \<and> name demo_record = ''my.demo''"
    by blast
  moreover from module_by_name_first_match [of "''my''" sample_tree "''my.nothing''"] b c
  have "module_by_name ''my'' sample_tree ''my.nothing''
          = Inl (RuntimeError ''No such module: my.nothing'')"
    by simp
  ultimately show ?thesis using a b c by simp
qed

subsection \<open>Failures of reading and parsing\<close>

text \<open>
  Claim C6. When the pass reaches a file (no earlier file ended the pass) that is no
  symbolic link and whose name is not excluded, and reading or parsing it raises, the
  exception ends the pass at once: it is the outcome of \<open>all_modules\<close>, the file is not
  passed over, and nothing is yielded or logged for any later file.
\<close>

theorem parse_failure_is_fatal:
  assumes "sorted_rglob files = pre @ f # post" and "raised (walk root pre) = None"
    and "\<not> is_symlink f" and "dotted_name (root # rel_path f) = Inr m" and "\<not> ignored m"
    and "parsed f = Inl e"
  shows "visit root f = Failed e
       \<and> raised (all_modules root files) = Some e
       \<and> yielded (all_modules root files) = yielded (walk root pre)
       \<and> logged (all_modules root files) = logged (walk root pre)"
proof -
  have v: "visit root f = Failed e"
    using assms(3-6) by (simp add: visit_def)
  then have w: "walk root (f # post) = Raised e" by simp
  show ?thesis
    using v w assms(1,2)
    by (simp add: all_modules_def raised_walk_append yielded_walk_append logged_walk_append
             del: walk.simps)
qed

theorem parse_failure_is_fatal_witness:
  "sorted_rglob [photos_main_py, faulty_py, demo_py] = [demo_py] @ faulty_py # [photos_main_py]
   \<and> raised (walk ''my'' [demo_py]) = None
   \<and> \<not> is_symlink faulty_py
   \<and> dotted_name (''my'' # rel_path faulty_py) = Inr ''my.faulty''
   \<and> \<not> ignored ''my.faulty''
   \<and> parsed faulty_py = Inl (ParseFailure ''invalid syntax'')
   \<and> raised (all_modules ''my'' [photos_main_py, faulty_py, demo_py])
        = Some (ParseFailure ''invalid syntax'')
   \<and> yielded (all_modules ''my'' [photos_main_py, faulty_py, demo_py]) = [demo_record]"
proof -
  have h1: "sorted_rglob [photos_main_py, faulty_py, demo_py]
              = [demo_py] @ faulty_py # [photos_main_py]"
    and h2: "raised (walk ''my'' [demo_py]) = None"
    and h3: "\<not> is_symlink faulty_py"
    and h4: "dotted_name (''my'' # rel_path faulty_py) = Inr ''my.faulty''"
    and h5: "\<not> ignored ''my.faulty''"
    and h6: "parsed faulty_py = Inl (ParseFailure ''invalid syntax'')"
    and h7: "yielded (walk ''my'' [demo_py]) = [demo_record]"
    by code_simp+
  from parse_failure_is_fatal [OF h1 h2 h3 h4 h5 h6] h7
  show ?thesis using h1 h2 h3 h4 h5 h6 by simp
qed

subsection \<open>The opt-out marker\<close>

lemma marks_is_not_module:
  "list_ex marks_not_module a \<Longrightarrow> is_not_module a"
proof -
  have "stmt_name x = Some NOT_HPI_MODULE_VAR
          \<or> list_ex (\<lambda>n. item_name n = Some NOT_HPI_MODULE_VAR) (stmt_names x)"
    if "marks_not_module x" for x
    using that by (cases x) (auto simp: list_ex_iff)
  then show "list_ex marks_not_module a \<Longrightarrow> is_not_module a"
    unfolding is_not_module_def list_ex_iff by blast
qed

text \<open>
  Claim C3 (amended). A file with a top-level function or class definition named
  \<open>__NOT_HPI_MODULE__\<close>, or a top-level \<open>import\<close> or \<open>from ... import\<close> statement one
  of whose imported names (the name before any \<open>as\<close>) is \<open>__NOT_HPI_MODULE__\<close>, is
  flagged by the opt-out test, and no record of the pass has that file as its \<open>file\<close>.
  The tree lists every path once.
\<close>

theorem opted_out_file_absent:
  assumes "f \<in> set files" and "parsed f = Inr a" and "list_ex marks_not_module a"
    and "\<forall>g\<in>set files. rel_path g = rel_path f \<longrightarrow> g = f"
  shows "is_not_module a
       \<and> (\<forall>r\<in>set (yielded (all_modules root files)). file r \<noteq> Some (root # rel_path f))"
proof -
  have flagged: "is_not_module a" using assms(3) by (rule marks_is_not_module)
  have "file r \<noteq> Some (root # rel_path f)" if "r \<in> set (yielded (all_modules root files))" for r
  proof
    assume same: "file r = Some (root # rel_path f)"
    from yielded_all_modules_origin [OF that] obtain g lg
      where g: "g \<in> set files" and v: "visit root g = Emitted r lg" by blast
    from visit_Emitted [OF v] have "file r = Some (root # rel_path g)" by auto
    with same have "rel_path g = rel_path f" by simp
    with assms(4) g have "g = f" by blast
    with v visit_Emitted [of root f r lg] assms(2) flagged show False by auto
  qed
  with flagged show ?thesis by blast
qed

theorem opted_out_file_absent_witness:
  "helper_py \<in> set [photos_main_py, helper_py] \<and> parsed helper_py = Inr helper_body
   \<and> list_ex marks_not_module helper_body
   \<and> list_all (\<lambda>g. rel_path g \<noteq> rel_path helper_py \<or> g = helper_py) [photos_main_py, helper_py]
   \<and> is_not_module helper_body
   \<and> list_all (\<lambda>r. file r \<noteq> Some (''my'' # rel_path helper_py))
        (yielded (all_modules ''my'' [photos_main_py, helper_py]))
   \<and> yielded (all_modules ''my'' [photos_main_py, helper_py]) = [photos_record]"
proof -
  have h1: "helper_py \<in> set [photos_main_py, helper_py]"
    and h2: "parsed helper_py = Inr helper_body"
    and h3: "list_ex marks_not_module helper_body"
    and h4: "list_all (\<lambda>g. rel_path g \<noteq> rel_path helper_py \<or> g = helper_py) [photos_main_py, helper_py]"
    and h5: "yielded (all_modules ''my'' [photos_main_py, helper_py]) = [photos_record]"
    by code_simp+
  have h4': "\<forall>g\<in>set [photos_main_py, helper_py]. rel_path g = rel_path helper_py \<longrightarrow> g = helper_py"
    using h4 by (auto simp: list_all_iff)
  from opted_out_file_absent [OF h1 h2 h3 h4', of "''my''"]
  show ?thesis using h1 h2 h3 h4 h5 by (simp add: list_all_iff)
qed

text \<open>
  Claim C3 as stated fails for a top-level variable named \<open>__NOT_HPI_MODULE__\<close> (an
  assignment has no \<open>name\<close> attribute) and for \<open>import helpers as __NOT_HPI_MODULE__\<close>
  (the test reads the imported name, not the name it is bound to): both files are
  reported.
\<close>

theorem opt_out_counterexample:
  "yielded (all_modules ''my'' [marker_variable_py]) =
     [\<lparr>name = ''my.flagged'', skip_reason = None, doc = None,
       file = Some [''my'', ''flagged.py''], requires = None\<rparr>]
   \<and> yielded (all_modules ''my'' [marker_asname_py]) =
     [\<lparr>name = ''my.renamed'', skip_reason = None, doc = None,
       file = Some [''my'', ''renamed.py''], requires = None\<rparr>]"
  by code_simp

subsection \<open>The exclusion filter\<close>

text \<open>What the matcher accepts, for the constructs of the pattern.\<close>

lemma accepts_RNone [simp]: "\<not> accepts RNone s"
  by (induction s) simp_all

lemma accepts_ROr [simp]: "accepts (ROr r t) s \<longleftrightarrow> accepts r s \<or> accepts t s"
  by (induction s arbitrary: r t) simp_all

lemma accepts_REmpty [simp]: "accepts REmpty s \<longleftrightarrow> s = []"
  by (cases s) simp_all

lemma accepts_RChar [simp]: "accepts (RChar c) s \<longleftrightarrow> s = [c]"
  by (cases s) auto

lemma accepts_RAny [simp]: "accepts RAny s \<longleftrightarrow> (\<exists>c. s = [c] \<and> c \<noteq> newline)"
  by (cases s) auto

lemma accepts_RSeq:
  "accepts (RSeq r t) s \<longleftrightarrow> (\<exists>u v. s = u @ v \<and> accepts r u \<and> accepts t v)"
proof (induction s arbitrary: r t)
  case Nil
  show ?case by simp
next
  case (Cons c cs)
  have split: "(\<exists>u v. c # cs = u @ v \<and> accepts r u \<and> accepts t v)
      \<longleftrightarrow> (nullable r \<and> accepts (deriv c t) cs)
          \<or> (\<exists>u v. cs = u @ v \<and> accepts (deriv c r) u \<and> accepts t v)"
    (is "?L \<longleftrightarrow> ?A \<or> ?B")
  proof
    assume ?L
    then obtain u v where uv: "c # cs = u @ v" "accepts r u" "accepts t v" by blast
    show "?A \<or> ?B"
    proof (cases u)
      case Nil
      with uv show ?thesis by auto
    next
      case (Cons d u')
      with uv have "cs = u' @ v" "accepts (deriv c r) u'" by auto
      with uv(3) show ?thesis by blast
    qed
  next
    assume "?A \<or> ?B"
    then show ?L
    proof
      assume ?A
      then have "c # cs = [] @ (c # cs) \<and> accepts r [] \<and> accepts t (c # cs)" by simp
      then show ?L by blast
    next
      assume ?B
      then obtain u v where "cs = u @ v" "accepts (deriv c r) u" "accepts t v" by blast
      then have "c # cs = (c # u) @ v \<and> accepts r (c # u) \<and> accepts t v" by simp
      then show ?L by blast
    qed
  qed
  show ?case
    by (simp add: Cons.IH split del: if_split) (auto simp: split Cons.IH)
qed

lemma accepts_literal [simp]: "accepts (literal l) s \<longleftrightarrow> s = l"
  by (induction l arbitrary: s) (auto simp: accepts_RSeq)

lemma accepts_star_any [simp]: "accepts (RStar RAny) s \<longleftrightarrow> newline \<notin> set s"
  by (induction s) (auto simp: accepts_RSeq)

lemma accepts_RSeq_literal:
  "accepts (RSeq (literal l) r) s \<longleftrightarrow> (\<exists>t. s = l @ t \<and> accepts r t)"
  by (simp add: accepts_RSeq)

lemma accepts_RSeq_RAny:
  "accepts (RSeq RAny r) s \<longleftrightarrow> (\<exists>c t. s = c # t \<and> c \<noteq> newline \<and> accepts r t)"
proof
  assume "accepts (RSeq RAny r) s"
  then obtain u v c where "s = u @ v" "u = [c]" "c \<noteq> newline" "accepts r v"
    by (auto simp: accepts_RSeq)
  then show "\<exists>c t. s = c # t \<and> c \<noteq> newline \<and> accepts r t" by simp
next
  assume "\<exists>c t. s = c # t \<and> c \<noteq> newline \<and> accepts r t"
  then obtain c t where "s = [c] @ t" "c \<noteq> newline" "accepts r t" by auto
  then have "s = [c] @ t \<and> accepts RAny [c] \<and> accepts r t" by simp
  then show "accepts (RSeq RAny r) s" unfolding accepts_RSeq by blast
qed

lemma accepts_pattern:
  "accepts (RSeq (literal ''my'') (RSeq RAny (alternation excluded))) s \<longleftrightarrow>
     (\<exists>c k t. s = ''my'' @ c # k @ t \<and> c \<noteq> newline \<and> (k = ''core'' \<or> k = ''config'')
        \<and> newline \<notin> set t)"
proof -
  have "accepts (RSeq (literal ''my'') (RSeq RAny (alternation excluded))) s \<longleftrightarrow>
     (\<exists>c w. s = ''my'' @ c # w \<and> c \<noteq> newline
        \<and> ((\<exists>t. w = ''core'' @ t \<and> newline \<notin> set t)
           \<or> (\<exists>t. w = ''config'' @ t \<and> newline \<notin> set t)))"
    unfolding excluded_def alternation.simps
    by (simp only: accepts_RSeq_literal accepts_RSeq_RAny accepts_ROr accepts_star_any) blast
  also have "\<dots> \<longleftrightarrow> (\<exists>c k t. s = ''my'' @ c # k @ t \<and> c \<noteq> newline
        \<and> (k = ''core'' \<or> k = ''config'') \<and> newline \<notin> set t)"
    by (rule iffI; (elim exE conjE disjE; blast))
  finally show ?thesis .
qed

text \<open>The names that \<open>ignored\<close> accepts, exactly.\<close>

lemma ignored_iff:
  "ignored m \<longleftrightarrow>
     (\<exists>c k t. (m = ''my'' @ c # k @ t \<or> m = ''my'' @ c # k @ t @ [newline])
        \<and> c \<noteq> newline \<and> (k = ''core'' \<or> k = ''config'') \<and> newline \<notin> set t)"
  (is "_ \<longleftrightarrow> ?R")
proof
  assume "ignored m"
  then consider (whole) "accepts (RSeq (literal ''my'') (RSeq RAny (alternation excluded))) m"
    | (nl) "m \<noteq> []" "last m = newline"
        "accepts (RSeq (literal ''my'') (RSeq RAny (alternation excluded))) (butlast m)"
    by (auto simp: ignored_def re_match_anchored_def Let_def)
  then show ?R
  proof cases
    case whole
    then show ?thesis unfolding accepts_pattern by blast
  next
    case nl
    from nl(3) obtain c k t where b: "butlast m = ''my'' @ c # k @ t" and r: "c \<noteq> newline"
        "k = ''core'' \<or> k = ''config''" "newline \<notin> set t"
      unfolding accepts_pattern by blast
    from nl(1,2) have "m = butlast m @ [newline]" by (metis append_butlast_last_id)
    with b have "m = ''my'' @ c # k @ t @ [newline]" by simp
    with r show ?thesis by blast
  qed
next
  assume ?R
  then obtain c k t where m: "m = ''my'' @ c # k @ t \<or> m = ''my'' @ c # k @ t @ [newline]"
    and r: "c \<noteq> newline" "k = ''core'' \<or> k = ''config''" "newline \<notin> set t" by blast
  have acc: "accepts (RSeq (literal ''my'') (RSeq RAny (alternation excluded))) (''my'' @ c # k @ t)"
    unfolding accepts_pattern using r by blast
  from m show "ignored m"
  proof
    assume "m = ''my'' @ c # k @ t"
    with acc have "accepts (RSeq (literal ''my'') (RSeq RAny (alternation excluded))) m"
      by (simp only:)
    then show ?thesis unfolding ignored_def re_match_anchored_def Let_def by blast
  next
    assume e: "m = ''my'' @ c # k @ t @ [newline]"
    then have "m = (''my'' @ c # k @ t) @ [newline]" by simp
    then have "m \<noteq> []" "last m = newline" "butlast m = ''my'' @ c # k @ t"
      by (simp_all only: butlast_snoc last_snoc) simp
    with acc have "m \<noteq> [] \<and> last m = newline
        \<and> accepts (RSeq (literal ''my'') (RSeq RAny (alternation excluded))) (butlast m)"
      by (simp del: accepts.simps)
    then show ?thesis unfolding ignored_def re_match_anchored_def Let_def by blast
  qed
qed

lemma yielded_not_ignored:
  assumes "r \<in> set (yielded (all_modules root files))"
  shows "\<not> ignored (name r)"
proof -
  from yielded_all_modules_origin [OF assms] obtain f lg
    where "visit root f = Emitted r lg" by blast
  from visit_Emitted [OF this] show ?thesis by auto
qed

text \<open>
  Claim C7 (amended). No record of a pass has a name that the exclusion filter
  accepts. The filter accepts \<open>my.core\<close>, \<open>my.config\<close> and every name below them
  (\<open>my.core.\<close> or \<open>my.config.\<close> followed by characters other than the newline). It is
  anchored at the start and case-sensitive: every name it accepts consists of \<open>my\<close>,
  one character, and a rest that starts with \<open>core\<close> or \<open>config\<close>.
\<close>

theorem exclusion_filter:
  "(\<forall>r\<in>set (yielded (all_modules root files)). \<not> ignored (name r))
   \<and> ignored ''my.core'' \<and> ignored ''my.config''
   \<and> (newline \<notin> set t \<longrightarrow> ignored (''my.core.'' @ t) \<and> ignored (''my.config.'' @ t))
   \<and> (ignored m \<longrightarrow> (\<exists>c w. m = ''my'' @ c # w \<and> (prefix ''core'' w \<or> prefix ''config'' w)))"
proof (intro conjI impI ballI)
  fix r assume "r \<in> set (yielded (all_modules root files))"
  then show "\<not> ignored (name r)" by (rule yielded_not_ignored)
next
  show "ignored ''my.core''" by code_simp
next
  show "ignored ''my.config''" by code_simp
next
  assume t: "newline \<notin> set t"
  have "''my.core.'' @ t = ''my'' @ CHR ''.'' # ''core'' @ (CHR ''.'' # t)" by simp
  moreover have "newline \<notin> set (CHR ''.'' # t)" using t by (simp add: newline_def)
  moreover have "CHR ''.'' \<noteq> newline" by (simp add: newline_def)
  ultimately show "ignored (''my.core.'' @ t)" unfolding ignored_iff by blast
next
  assume t: "newline \<notin> set t"
  have "''my.config.'' @ t = ''my'' @ CHR ''.'' # ''config'' @ (CHR ''.'' # t)" by simp
  moreover have "newline \<notin> set (CHR ''.'' # t)" using t by (simp add: newline_def)
  moreover have "CHR ''.'' \<noteq> newline" by (simp add: newline_def)
  ultimately show "ignored (''my.config.'' @ t)" unfolding ignored_iff by blast
next
  assume "ignored m"
  then obtain c k t where m: "m = ''my'' @ c # k @ t \<or> m = ''my'' @ c # k @ t @ [newline]"
    and k: "k = ''core'' \<or> k = ''config''"
    unfolding ignored_iff by blast
  from m obtain w where "m = ''my'' @ c # k @ w" by auto
  moreover have "prefix k (k @ w)" by simp
  ultimately show "\<exists>c w. m = ''my'' @ c # w \<and> (prefix ''core'' w \<or> prefix ''config'' w)"
    using k by blast
qed

theorem exclusion_filter_witness:
  "yielded (all_modules ''my'' [core_common_py, demo_py]) = [demo_record]
   \<and> \<not> ignored (name demo_record)
   \<and> ignored ''my.core'' \<and> ignored ''my.config''
   \<and> newline \<notin> set ''common''
   \<and> ignored ''my.core.common'' \<and> ignored ''my.config.common''
   \<and> ignored ''my.config_old''
   \<and> prefix ''config'' ''config_old''
   \<and> \<not> ignored ''My.core'' \<and> \<not> ignored ''app.my.core''"
proof -
  have y: "yielded (all_modules ''my'' [core_common_py, demo_py]) = [demo_record]"
    and n: "newline \<notin> set ''common''"
    and o: "ignored ''my.config_old''"
    and p: "prefix ''config'' ''config_old''"
    by code_simp+
  note E1 = exclusion_filter [of "''my''" "[core_common_py, demo_py]" "''common''" "''My.core''"]
  note E2 = exclusion_filter [of "''my''" "[core_common_py, demo_py]" "''common''" "''app.my.core''"]
  note E3 = exclusion_filter [of "''my''" "[core_common_py, demo_py]" "''common''" "''my.config_old''"]
  have "\<not> ignored (name demo_record)" using E1 y by simp
  moreover have "ignored ''my.core''" "ignored ''my.config''" using E1 by blast+
  moreover have "ignored ''my.core.common''" "ignored ''my.config.common''" using E1 n by simp_all
  moreover have "\<not> ignored ''My.core''" using E1 by auto
  moreover have "\<not> ignored ''app.my.core''" using E2 by auto
  ultimately show ?thesis using y n o p by simp
qed

text \<open>
  Claim C7 as stated fails: the filter accepts \<open>my.coreutils\<close> and \<open>my_config\<close>, which
  are outside the two subnamespaces, so a module \<open>my/coreutils.py\<close> is never reported.
\<close>

theorem exclusion_filter_counterexample:
  "ignored ''my.coreutils'' \<and> \<not> ignored_spec ''my.coreutils''
   \<and> ignored ''my_config'' \<and> \<not> ignored_spec ''my_config''
   \<and> all_modules ''my'' [coreutils_py] = Done"
  by code_simp

subsection \<open>Names and paths\<close>

lemma rfind_last:
  "c \<notin> set b \<Longrightarrow> rfind c (a @ c # b) = int (length a)"
proof -
  assume "c \<notin> set b"
  then have "takeWhile (\<lambda>x. x \<noteq> c) (rev b @ c # rev a) = rev b"
    by (auto simp: takeWhile_tail)
  then show ?thesis by (simp add: rfind_def)
qed

lemma name_suffix_py:
  "s \<noteq> [] \<Longrightarrow> name_suffix (s @ ''.py'') = ''.py''"
  using rfind_last [of "CHR ''.''" "''py''" s]
  by (simp add: name_suffix_def Let_def)

lemma name_suffix_cases:
  "name_suffix n = [] \<or> (\<exists>i. 0 < i \<and> i < length n - 1 \<and> name_suffix n = drop i n)"
proof (cases "0 < rfind (CHR ''.'') n \<and> rfind (CHR ''.'') n < int (length n) - 1")
  case True
  then have "0 < nat (rfind (CHR ''.'') n) \<and> nat (rfind (CHR ''.'') n) < length n - 1
      \<and> name_suffix n = drop (nat (rfind (CHR ''.'') n)) n"
    by (auto simp: name_suffix_def Let_def)
  then show ?thesis by blast
next
  case False
  then show ?thesis by (auto simp: name_suffix_def Let_def)
qed

lemma with_suffix_empty_stem:
  "with_suffix_empty p =
     (if path_name p = [] then Inl (ValueError ''path has an empty name'')
      else Inr (butlast p @ [stem (path_name p)]))"
  by (simp add: with_suffix_empty_def stem_def Let_def)

lemma stem_nonempty: "n \<noteq> [] \<Longrightarrow> stem n \<noteq> []"
  using name_suffix_cases [of n] by (auto simp: stem_def)

lemma stem_py: "stem (s @ ''.py'') = (if s = [] then ''.py'' else s)"
proof (cases "s = []")
  case True
  have "name_suffix ''.py'' = []" by code_simp
  with True show ?thesis by (simp add: stem_def)
next
  case False
  then show ?thesis by (simp add: stem_def name_suffix_py)
qed

lemma join_nonempty: "xs \<noteq> [] \<Longrightarrow> last xs \<noteq> [] \<Longrightarrow> join sep xs \<noteq> []"
  by (induction sep xs rule: join.induct) auto

lemma dotted_name_nonempty:
  assumes "dotted_name p = Inr m"
  shows "m \<noteq> []"
proof -
  define q where "q = (if path_name p = ''__init__.py'' then path_parent p else p)"
  from assms have n: "path_name q \<noteq> []"
    and m: "m = replace_char (CHR ''/'') (CHR ''.'') (path_str (butlast q @ [stem (path_name q)]))"
    by (auto simp: dotted_name_def q_def Let_def with_suffix_empty_stem split: if_splits)
  have "join ''/'' (butlast q @ [stem (path_name q)]) \<noteq> []"
    by (rule join_nonempty) (simp_all add: stem_nonempty n)
  then show ?thesis by (simp add: m path_str_def replace_char_def)
qed

lemma distinct_map_insort_key:
  "distinct (map f (insort_key f x xs)) \<longleftrightarrow> f x \<notin> f ` set xs \<and> distinct (map f xs)"
  by (induction xs) (auto simp: set_insort_key)

lemma distinct_map_sort_key:
  "distinct (map f (sort_key f xs)) \<longleftrightarrow> distinct (map f xs)"
  by (induction xs) (simp_all add: distinct_map_insort_key)

lemma distinct_sorted_rglob:
  "distinct (map rel_path files) \<Longrightarrow> distinct (map rel_path (sorted_rglob files))"
  by (simp add: sorted_rglob_def distinct_map_sort_key distinct_map_filter)

lemma aborts_iff: "aborts root f \<longleftrightarrow> (\<exists>e. visit root f = Failed e)"
  by (cases "visit root f") (simp_all add: aborts_def)

lemma files_walk:
  "map file (yielded (walk root fs)) =
     map (\<lambda>f. Some (root # rel_path f))
       (filter (eligible root) (takeWhile (\<lambda>f. \<not> aborts root f) fs))"
proof (induction fs)
  case Nil
  show ?case by simp
next
  case (Cons f fs)
  show ?case
  proof (cases "visit root f")
    case Skipped
    then have "\<not> eligible root f" "\<not> aborts root f"
      by (simp_all add: visit_eligible aborts_iff)
    with Skipped Cons show ?thesis by simp
  next
    case (Failed e)
    then have "aborts root f" by (simp add: aborts_iff)
    with Failed show ?thesis by simp
  next
    case (Emitted r lg)
    then have e: "eligible root f" "\<not> aborts root f"
      by (auto simp: visit_eligible aborts_iff)
    from visit_Emitted [OF Emitted] have "file r = Some (root # rel_path f)" by auto
    with Emitted e Cons show ?thesis by (cases lg) simp_all
  qed
qed

lemma raised_walk_none:
  "raised (walk root fs) = None \<Longrightarrow> takeWhile (\<lambda>f. \<not> aborts root f) fs = fs"
proof (induction fs)
  case Nil
  show ?case by simp
next
  case (Cons f fs)
  then show ?case
    by (cases "visit root f") (auto simp: aborts_iff split: option.splits)
qed

lemma distinct_files_walk:
  assumes "distinct (map rel_path fs)"
  shows "distinct (map file (yielded (walk root fs)))"
proof -
  let ?kept = "filter (eligible root) (takeWhile (\<lambda>f. \<not> aborts root f) fs)"
  have "distinct (map rel_path (takeWhile (\<lambda>f. \<not> aborts root f) fs
          @ dropWhile (\<lambda>f. \<not> aborts root f) fs))"
    using assms by simp
  then have "distinct (map rel_path (takeWhile (\<lambda>f. \<not> aborts root f) fs))"
    unfolding map_append distinct_append by blast
  then have "distinct (map rel_path ?kept)" by (rule distinct_map_filter)
  then have "distinct (map (\<lambda>p. Some (root # p)) (map rel_path ?kept))"
    by (simp add: distinct_map inj_on_def)
  then show ?thesis by (simp add: files_walk comp_def)
qed

lemma yielded_name:
  assumes "r \<in> set (yielded (all_modules root files))"
  shows "\<exists>f\<in>set files. glob_py f \<and> eligible root f \<and> file r = Some (root # rel_path f)
           \<and> dotted_name (root # rel_path f) = Inr (name r)"
proof -
  from yielded_all_modules_origin [OF assms] obtain f lg
    where f: "f \<in> set files" "glob_py f" and v: "visit root f = Emitted r lg" by blast
  from v have "eligible root f" by (auto simp: visit_eligible)
  moreover from visit_Emitted [OF v]
  have "file r = Some (root # rel_path f)" "dotted_name (root # rel_path f) = Inr (name r)"
    by auto
  ultimately show ?thesis using f by blast
qed

text \<open>
  Claim C8 (amended). In one pass every eligible file gives exactly one record, in the
  order of the sorted paths: the \<open>file\<close> fields of the records are the paths of the
  eligible files, and they differ from one another when the tree lists every path once.
  No record has an empty name. Names are unique whenever no two eligible files have the
  same dotted name.
\<close>

theorem one_record_per_eligible_file:
  "(raised (all_modules root files) = None \<longrightarrow>
      map file (yielded (all_modules root files))
        = map (\<lambda>f. Some (root # rel_path f)) (filter (eligible root) (sorted_rglob files)))
   \<and> (distinct (map rel_path files) \<longrightarrow> distinct (map file (yielded (all_modules root files))))
   \<and> (\<forall>r\<in>set (yielded (all_modules root files)). name r \<noteq> [])
   \<and> (distinct (map rel_path files)
        \<and> inj_on (\<lambda>f. dotted_name (root # rel_path f)) {f \<in> set files. eligible root f}
      \<longrightarrow> distinct (map name (yielded (all_modules root files))))"
proof (intro conjI impI ballI)
  assume "raised (all_modules root files) = None"
  then show "map file (yielded (all_modules root files))
        = map (\<lambda>f. Some (root # rel_path f)) (filter (eligible root) (sorted_rglob files))"
    by (simp add: all_modules_def files_walk raised_walk_none)
next
  assume "distinct (map rel_path files)"
  then show "distinct (map file (yielded (all_modules root files)))"
    unfolding all_modules_def by (intro distinct_files_walk distinct_sorted_rglob)
next
  fix r assume "r \<in> set (yielded (all_modules root files))"
  from yielded_name [OF this] show "name r \<noteq> []"
    using dotted_name_nonempty by blast
next
  assume a: "distinct (map rel_path files)
        \<and> inj_on (\<lambda>f. dotted_name (root # rel_path f)) {f \<in> set files. eligible root f}"
  let ?ys = "yielded (all_modules root files)"
  have df: "distinct (map file ?ys)"
    using a unfolding all_modules_def by (intro distinct_files_walk distinct_sorted_rglob) simp
  then have d: "distinct ?ys" and i: "inj_on file (set ?ys)" by (simp_all add: distinct_map)
  have "inj_on name (set ?ys)"
  proof (rule inj_onI)
    fix r1 r2 assume r: "r1 \<in> set ?ys" "r2 \<in> set ?ys" and eq: "name r1 = name r2"
    from yielded_name [OF r(1)] obtain f1 where f1: "f1 \<in> set files" "eligible root f1"
      "file r1 = Some (root # rel_path f1)" "dotted_name (root # rel_path f1) = Inr (name r1)"
      by blast
    from yielded_name [OF r(2)] obtain f2 where f2: "f2 \<in> set files" "eligible root f2"
      "file r2 = Some (root # rel_path f2)" "dotted_name (root # rel_path f2) = Inr (name r2)"
      by blast
    from f1 f2 eq a have "f1 = f2" by (auto simp: inj_on_def)
    with f1 f2 have "file r1 = file r2" by simp
    with i r show "r1 = r2" by (auto simp: inj_on_def)
  qed
  with d show "distinct (map name ?ys)" by (simp add: distinct_map)
qed

theorem one_record_per_eligible_file_witness:
  "raised (all_modules ''my'' sample_tree) = None
   \<and> map file (yielded (all_modules ''my'' sample_tree))
       = [Some [''my'', ''demo.py''], Some [''my'', ''empty.py''],
          Some [''my'', ''photos'', ''main.py'']]
   \<and> distinct (map rel_path sample_tree)
   \<and> distinct (map file (yielded (all_modules ''my'' sample_tree)))
   \<and> list_all (\<lambda>r. name r \<noteq> []) (yielded (all_modules ''my'' sample_tree))
   \<and> distinct (map (\<lambda>f. dotted_name (''my'' # rel_path f)) (filter (eligible ''my'') sample_tree))
   \<and> distinct (map name (yielded (all_modules ''my'' sample_tree)))"
proof -
  have h1: "raised (all_modules ''my'' sample_tree) = None"
    and h2: "distinct (map rel_path sample_tree)"
    and h3: "distinct (map (\<lambda>f. dotted_name (''my'' # rel_path f))
               (filter (eligible ''my'') sample_tree))"
    and h4: "map (\<lambda>f. Some (''my'' # rel_path f)) (filter (eligible ''my'') (sorted_rglob sample_tree))
       = [Some [''my'', ''demo.py''], Some [''my'', ''empty.py''],
          Some [''my'', ''photos'', ''main.py'']]"
    by code_simp+
  from h3 have h3': "inj_on (\<lambda>f. dotted_name (''my'' # rel_path f))
                       {f \<in> set sample_tree. eligible ''my'' f}"
    by (simp add: distinct_map)
  note T = one_record_per_eligible_file [of "''my''" sample_tree]
  have "map file (yielded (all_modules ''my'' sample_tree))
       = [Some [''my'', ''demo.py''], Some [''my'', ''empty.py''],
          Some [''my'', ''photos'', ''main.py'']]"
    using T h1 h4 by simp
  moreover have "distinct (map file (yielded (all_modules ''my'' sample_tree)))"
    using T h2 by blast
  moreover have "list_all (\<lambda>r. name r \<noteq> []) (yielded (all_modules ''my'' sample_tree))"
    using T unfolding list_all_iff by blast
  moreover have "distinct (map name (yielded (all_modules ''my'' sample_tree)))"
    using T h2 h3' by blast
  ultimately show ?thesis using h1 h2 h3 by simp
qed

text \<open>
  Claim C8 as stated fails: a module file \<open>my/foo.py\<close> beside a package
  \<open>my/foo/__init__.py\<close> gives two records of one pass with the name \<open>my.foo\<close>.
\<close>

theorem unique_names_counterexample:
  "map name (yielded (all_modules ''my'' [foo_py, foo_init_py])) = [''my.foo'', ''my.foo'']
   \<and> map file (yielded (all_modules ''my'' [foo_py, foo_init_py]))
       = [Some [''my'', ''foo'', ''__init__.py''], Some [''my'', ''foo.py'']]"
  by code_simp

lemma canonical_spec_agrees:
  assumes py: "suffix ''.py'' n" and ds: "ds \<noteq> []"
    and dn: "dotted_name (ds @ [n]) = Inr m"
    and ok: "n \<noteq> ''__init__.py'' \<or> name_suffix (last ds) = []"
  shows "canonical_name_spec (ds @ [n]) = Inr m"
proof (cases "n = ''__init__.py''")
  case False
  from py obtain s where n: "n = s @ ''.py''" by (auto simp: suffix_def)
  with False have s: "s \<noteq> ''__init__''" by auto
  have st: "stem n \<noteq> ''__init__''" using s by (simp add: n stem_py)
  have ne: "n \<noteq> []" using n by simp
  from dn False ne have "m = replace_char (CHR ''/'') (CHR ''.'') (path_str (ds @ [stem n]))"
    by (simp add: dotted_name_def Let_def with_suffix_empty_stem path_name_def)
  then show ?thesis using st ne
    by (simp add: canonical_name_spec_def with_suffix_empty_stem path_name_def)
next
  case True
  with ok have sfx: "name_suffix (last ds) = []" by simp
  then have sl: "stem (last ds) = last ds" by (simp add: stem_def)
  have si: "stem ''__init__.py'' = ''__init__''"
    using stem_py [of "''__init__''"] by simp
  from dn True ds have "last ds \<noteq> []"
    and "m = replace_char (CHR ''/'') (CHR ''.'') (path_str (butlast ds @ [stem (last ds)]))"
    by (auto simp: dotted_name_def Let_def with_suffix_empty_stem path_name_def path_parent_def
             split: if_splits)
  then have m: "m = replace_char (CHR ''/'') (CHR ''.'') (path_str ds)"
    using ds by (simp add: sl)
  show ?thesis using True m
    by (simp add: canonical_name_spec_def with_suffix_empty_stem path_name_def path_parent_def si)
qed

text \<open>
  Claim C9 (amended). The name of every record is what the source's canonicalization
  gives for the record's \<open>file\<close>: an \<open>__init__.py\<close> is dropped first, then the suffix
  of the final component that remains is stripped, then the separators become dots.
  This is the result of the steps in the order of the claim (strip the extension, drop
  a final package-init component, replace the separators) whenever the file is not an
  \<open>__init__.py\<close> in a directory whose name has a suffix.
\<close>

theorem name_is_canonical_file:
  assumes "r \<in> set (yielded (all_modules root files))"
  shows "\<exists>p. file r = Some p \<and> dotted_name p = Inr (name r)
           \<and> (path_name p \<noteq> ''__init__.py'' \<or> name_suffix (path_name (path_parent p)) = []
                \<longrightarrow> canonical_name_spec p = Inr (name r))"
proof -
  from yielded_name [OF assms] obtain f where f: "glob_py f"
    "file r = Some (root # rel_path f)" "dotted_name (root # rel_path f) = Inr (name r)"
    by blast
  let ?p = "root # rel_path f"
  have p: "?p = (root # dirs f) @ [fname f]" by (simp add: rel_path_def)
  have pn: "path_name ?p = fname f" and pp: "path_parent ?p = root # dirs f"
    by (simp_all add: path_name_def path_parent_def rel_path_def)
  have "canonical_name_spec ?p = Inr (name r)"
    if "path_name ?p \<noteq> ''__init__.py'' \<or> name_suffix (path_name (path_parent ?p)) = []"
  proof -
    from that have "fname f \<noteq> ''__init__.py'' \<or> name_suffix (last (root # dirs f)) = []"
      unfolding pn pp by (simp add: path_name_def)
    with f(1,3) show ?thesis
      unfolding p glob_py_def by (intro canonical_spec_agrees) simp_all
  qed
  with f(2,3) show ?thesis by blast
qed

theorem name_is_canonical_file_witness:
  "foo_init_record \<in> set (yielded (all_modules ''my'' [foo_py, foo_init_py]))
   \<and> file foo_init_record = Some [''my'', ''foo'', ''__init__.py'']
   \<and> name_suffix (path_name (path_parent [''my'', ''foo'', ''__init__.py''])) = []
   \<and> dotted_name [''my'', ''foo'', ''__init__.py''] = Inr (name foo_init_record)
   \<and> canonical_name_spec [''my'', ''foo'', ''__init__.py''] = Inr (name foo_init_record)
   \<and> name foo_init_record = ''my.foo''"
proof -
  have h: "foo_init_record \<in> set (yielded (all_modules ''my'' [foo_py, foo_init_py]))"
    and f: "file foo_init_record = Some [''my'', ''foo'', ''__init__.py'']"
    and s: "name_suffix (path_name (path_parent [''my'', ''foo'', ''__init__.py''])) = []"
    and n: "name foo_init_record = ''my.foo''"
    by code_simp+
  from name_is_canonical_file [OF h] f s
  have "dotted_name [''my'', ''foo'', ''__init__.py''] = Inr (name foo_init_record)
      \<and> canonical_name_spec [''my'', ''foo'', ''__init__.py''] = Inr (name foo_init_record)"
    by auto
  then show ?thesis using h f s n by simp
qed

text \<open>
  Claim C9 as stated fails for a package whose directory name has a suffix: for
  \<open>my/pkg.v2/__init__.py\<close> the record's name is \<open>my.pkg\<close>, while the steps in the
  order of the claim give \<open>my.pkg.v2\<close>.
\<close>

theorem name_roundtrip_counterexample:
  "yielded (all_modules ''my'' [versioned_init_py]) =
     [\<lparr>name = ''my.pkg'', skip_reason = None, doc = Some ''Just a demo module'',
       file = Some [''my'', ''pkg.v2'', ''__init__.py''], requires = None\<rparr>]
   \<and> canonical_name_spec [''my'', ''pkg.v2'', ''__init__.py''] = Inr ''my.pkg.v2''"
  by code_simp

end
